theory Spec2Isabelle
  imports Complex_Main
begin

section \<open>Shared conventions\<close>

text \<open>
  Python \<open>int\<close> is modelled as \<^typ>\<open>int\<close>.  Python \<open>float\<close> is modelled as
  \<^typ>\<open>real\<close>: arithmetic is exact, there is no rounding, no infinity and no NaN.
  Every exception the modelled code can raise is a value of \<open>error\<close>; a function that
  can raise returns \<open>error + 'a\<close> with \<open>Inl\<close> for the exception.
\<close>

datatype error = KeyError | ValueError | ZeroDivisionError

section \<open>utils/zones.py: PitchZoneMapper\<close>

type_synonym zone_box = "real \<times> real \<times> real \<times> real"

record PitchZoneMapper =
  pitch_width :: int
  pitch_height :: int
  zones_per_row :: int
  zones_per_col :: int
  zone_width :: real
  zone_height :: real
  zone_map :: "int \<rightharpoonup> zone_box"

text \<open>
  \<open>_create_zone_map\<close>: two nested \<open>for\<close> loops over \<open>range(zones_per_col)\<close> and
  \<open>range(zones_per_row)\<close>; the loop state is the dictionary and the running
  \<open>zone_number\<close>, which starts at 1.
\<close>

definition create_zone_map_cell ::
  "real \<Rightarrow> real \<Rightarrow> int \<Rightarrow> int \<Rightarrow> (int \<rightharpoonup> zone_box) \<times> int \<Rightarrow> (int \<rightharpoonup> zone_box) \<times> int" where
  "create_zone_map_cell zw zh row col st =
     (let x1 = of_int col * zw;
          y1 = of_int row * zh;
          x2 = of_int (col + 1) * zw;
          y2 = of_int (row + 1) * zh
      in ((fst st)(snd st \<mapsto> (x1, y1, x2, y2)), snd st + 1))"

definition create_zone_map :: "int \<Rightarrow> int \<Rightarrow> real \<Rightarrow> real \<Rightarrow> (int \<rightharpoonup> zone_box)" where
  "create_zone_map zpr zpc zw zh =
     fst (fold (\<lambda>row. fold (create_zone_map_cell zw zh row) [0..zpr - 1])
               [0..zpc - 1] (Map.empty, 1))"

text \<open>\<open>__init__\<close>; the defaults are \<open>pitch_width = 1920\<close>, \<open>pitch_height = 1080\<close>.\<close>

definition PitchZoneMapper_init :: "int \<Rightarrow> int \<Rightarrow> PitchZoneMapper" where
  "PitchZoneMapper_init w h =
     \<lparr> pitch_width = w, pitch_height = h,
       zones_per_row = 6, zones_per_col = 3,
       zone_width = of_int w / of_int 6,
       zone_height = of_int h / of_int 3,
       zone_map = create_zone_map 6 3 (of_int w / of_int 6) (of_int h / of_int 3) \<rparr>"

definition PitchZoneMapper_default :: PitchZoneMapper where
  "PitchZoneMapper_default = PitchZoneMapper_init 1920 1080"

text \<open>
  \<open>int(a // b)\<close> on floats: the floor of the quotient, \<open>ZeroDivisionError\<close> when the
  divisor is zero.
\<close>

definition floordiv_int :: "real \<Rightarrow> real \<Rightarrow> error + int" where
  "floordiv_int a b = (if b = 0 then Inl ZeroDivisionError else Inr \<lfloor>a / b\<rfloor>)"

definition pixel_to_zone :: "PitchZoneMapper \<Rightarrow> real \<Rightarrow> real \<Rightarrow> error + int" where
  "pixel_to_zone m x y =
     (if \<not> (0 \<le> x \<and> x \<le> of_int (pitch_width m) \<and> 0 \<le> y \<and> y \<le> of_int (pitch_height m))
      then Inr 0
      else case floordiv_int x (zone_width m) of
             Inl e \<Rightarrow> Inl e
           | Inr c \<Rightarrow>
               (case floordiv_int y (zone_height m) of
                  Inl e \<Rightarrow> Inl e
                | Inr r \<Rightarrow>
                    (let col = min c (zones_per_row m - 1);
                         row = min r (zones_per_col m - 1);
                         zone_number = row * zones_per_row m + col + 1
                     in Inr zone_number)))"

definition zone_to_pixel_center :: "PitchZoneMapper \<Rightarrow> int \<Rightarrow> error + (real \<times> real)" where
  "zone_to_pixel_center m zone_number =
     (case zone_map m zone_number of
        None \<Rightarrow> Inl ValueError
      | Some (x1, y1, x2, y2) \<Rightarrow> Inr ((x1 + x2) / 2, (y1 + y2) / 2))"

definition get_zone_boundaries :: "PitchZoneMapper \<Rightarrow> int \<Rightarrow> error + zone_box" where
  "get_zone_boundaries m zone_number =
     (case zone_map m zone_number of
        None \<Rightarrow> Inl ValueError
      | Some b \<Rightarrow> Inr b)"

definition calculate_zone_sum :: "int list \<Rightarrow> int" where
  "calculate_zone_sum zones = sum_list zones"

definition detect_fast_break :: "int list \<Rightarrow> int \<Rightarrow> int \<Rightarrow> int \<Rightarrow> int \<Rightarrow> bool" where
  "detect_fast_break zone_sequence min_passes min_zone_sum max_passes max_zone_sum =
     (if int (length zone_sequence) < min_passes then False
      else let zone_sum = calculate_zone_sum zone_sequence in
        if int (length zone_sequence) \<ge> min_passes \<and> zone_sum > min_zone_sum then True
        else if (min_passes < int (length zone_sequence)
                 \<and> int (length zone_sequence) \<le> max_passes)
                \<and> zone_sum > max_zone_sum then True
        else False)"

text \<open>The call with every threshold left at its default: 3, 9, 5, 12.\<close>

definition detect_fast_break_default :: "int list \<Rightarrow> bool" where
  "detect_fast_break_default zone_sequence = detect_fast_break zone_sequence 3 9 5 12"


section \<open>utils/tracker.py: TrackedObject and ObjectTracker\<close>

type_synonym bbox = "real \<times> real \<times> real \<times> real"

record TrackedObject =
  obj_id :: int
  bbox :: bbox
  class_id :: int
  confidence :: real
  frame_id :: int
  center :: "real \<times> real"
  velocity :: "(real \<times> real) option"

text \<open>A detection dictionary with its three keys \<open>bbox\<close>, \<open>class_id\<close>, \<open>confidence\<close>.\<close>

record detection =
  det_bbox :: bbox
  det_class_id :: int
  det_confidence :: real

text \<open>The value stored in \<open>self.trackers\<close> for one object id.\<close>

record 't tracker_info =
  ti_tracker :: 't
  ti_class_id :: int
  ti_confidence :: real

text \<open>
  The OpenCV tracker is outside the repository.  It is a parameter of the model: a type
  \<open>'t\<close> of tracker states, the state \<open>create_tracker\<close> returns, and the two methods the
  code calls, each returning its result together with the tracker's new state.  \<open>'f\<close> is
  the type of video frames.
\<close>

record ('f, 't) tracker_backend =
  create_tracker :: 't
  tracker_init :: "'t \<Rightarrow> 'f \<Rightarrow> bbox \<Rightarrow> bool \<times> 't"
  tracker_update :: "'t \<Rightarrow> 'f \<Rightarrow> (bool \<times> bbox) \<times> 't"

text \<open>
  \<open>self.trackers\<close> is a dictionary read in insertion order, so it is an association list
  with distinct keys in that order; \<open>self.disappeared\<close> is only ever looked up by key.
\<close>

record 't ObjectTracker =
  trackers :: "(int \<times> 't tracker_info) list"
  next_id :: int
  max_disappeared :: int
  disappeared :: "int \<rightharpoonup> int"

definition ObjectTracker_init :: "'t ObjectTracker" where
  "ObjectTracker_init =
     \<lparr> trackers = [], next_id = 0, max_disappeared = 30, disappeared = Map.empty \<rparr>"

text \<open>\<open>d[k] = v\<close>: replace in place when the key is present, append otherwise.\<close>

definition dict_set :: "int \<Rightarrow> 'v \<Rightarrow> (int \<times> 'v) list \<Rightarrow> (int \<times> 'v) list" where
  "dict_set k v d =
     (if k \<in> set (map fst d)
      then map (\<lambda>kv. if fst kv = k then (k, v) else kv) d
      else d @ [(k, v)])"

text \<open>\<open>del d[k]\<close>: \<open>KeyError\<close> when the key is absent.\<close>

definition dict_del :: "int \<Rightarrow> (int \<times> 'v) list \<Rightarrow> error + (int \<times> 'v) list" where
  "dict_del k d =
     (if k \<in> set (map fst d) then Inr (filter (\<lambda>kv. fst kv \<noteq> k) d) else Inl KeyError)"

text \<open>
  \<open>tracker.update(frame)\<close> mutates the tracker object that the dictionary entry refers
  to; the entry of that id, when still present, holds the tracker's new state.
\<close>

definition store_tracker :: "int \<Rightarrow> 't \<Rightarrow> (int \<times> 't tracker_info) list \<Rightarrow> (int \<times> 't tracker_info) list" where
  "store_tracker k t d = map (\<lambda>kv. if fst kv = k then (k, (snd kv)\<lparr>ti_tracker := t\<rparr>) else kv) d"

text \<open>The body of the loop \<open>for detection in detections\<close> of \<open>update\<close>.\<close>

definition init_track :: "('f, 't) tracker_backend \<Rightarrow> 'f \<Rightarrow> detection \<Rightarrow> 't ObjectTracker \<Rightarrow> 't ObjectTracker" where
  "init_track be frame det s =
     (let r = tracker_init be (create_tracker be) frame (det_bbox det);
          success = fst r
      in if success
         then s\<lparr> trackers := dict_set (next_id s)
                                \<lparr> ti_tracker = snd r, ti_class_id = det_class_id det,
                                  ti_confidence = det_confidence det \<rparr> (trackers s),
                 disappeared := (disappeared s)(next_id s \<mapsto> 0),
                 next_id := next_id s + 1 \<rparr>
         else s)"

text \<open>The block \<open>if not self.trackers: ...\<close> of \<open>update\<close>.\<close>

definition bootstrap :: "('f, 't) tracker_backend \<Rightarrow> 't ObjectTracker \<Rightarrow> 'f \<Rightarrow> detection list \<Rightarrow> 't ObjectTracker" where
  "bootstrap be s frame detections =
     (if trackers s = [] then fold (init_track be frame) detections s else s)"

text \<open>
  The body of the loop \<open>for object_id, tracker_info in list(self.trackers.items())\<close>; the
  loop state is the tracker and the list \<open>tracked_objects\<close>.
\<close>

definition update_track ::
  "('f, 't) tracker_backend \<Rightarrow> 'f \<Rightarrow> int \<times> 't tracker_info \<Rightarrow>
   't ObjectTracker \<times> TrackedObject list \<Rightarrow> error + ('t ObjectTracker \<times> TrackedObject list)" where
  "update_track be frame item st =
     (let object_id = fst item; info = snd item;
          r = tracker_update be (ti_tracker info) frame;
          success = fst (fst r); box = snd (fst r);
          s = (fst st)\<lparr> trackers := store_tracker object_id (snd r) (trackers (fst st)) \<rparr>;
          tracked_objects = snd st
      in if success
         then (case box of (x, y, w, h) \<Rightarrow>
                 Inr (s\<lparr> disappeared := (disappeared s)(object_id \<mapsto> 0) \<rparr>,
                      tracked_objects @
                        [\<lparr> obj_id = object_id, bbox = box, class_id = ti_class_id info,
                           confidence = ti_confidence info, frame_id = 0,
                           center = (x + w / 2, y + h / 2), velocity = None \<rparr>]))
         else (case disappeared s object_id of
                 None \<Rightarrow> Inl KeyError
               | Some n \<Rightarrow>
                   (let s1 = s\<lparr> disappeared := (disappeared s)(object_id \<mapsto> n + 1) \<rparr>
                    in if n + 1 > max_disappeared s1
                       then (case dict_del object_id (trackers s1) of
                               Inl e \<Rightarrow> Inl e
                             | Inr d \<Rightarrow>
                                 Inr (s1\<lparr> trackers := d,
                                          disappeared := (disappeared s1)(object_id := None) \<rparr>,
                                      tracked_objects))
                       else Inr (s1, tracked_objects))))"

fun update_tracks ::
  "('f, 't) tracker_backend \<Rightarrow> 'f \<Rightarrow> (int \<times> 't tracker_info) list \<Rightarrow>
   't ObjectTracker \<times> TrackedObject list \<Rightarrow> error + ('t ObjectTracker \<times> TrackedObject list)" where
  "update_tracks be frame [] st = Inr st"
| "update_tracks be frame (item # items) st =
     (case update_track be frame item st of
        Inl e \<Rightarrow> Inl e
      | Inr st' \<Rightarrow> update_tracks be frame items st')"

definition update ::
  "('f, 't) tracker_backend \<Rightarrow> 't ObjectTracker \<Rightarrow> 'f \<Rightarrow> detection list \<Rightarrow>
   error + ('t ObjectTracker \<times> TrackedObject list)" where
  "update be s frame detections =
     (let s1 = bootstrap be s frame detections
      in update_tracks be frame (trackers s1) (s1, []))"

definition reset :: "'t ObjectTracker \<Rightarrow> 't ObjectTracker" where
  "reset s = s\<lparr> trackers := [], disappeared := Map.empty, next_id := 0 \<rparr>"

text \<open>
  A job: the caller's frame loop, one \<open>update\<close> per frame with that frame's detections
  and no \<open>reset\<close> in between.  The result is the tracker after the last frame.
\<close>

fun update_frames ::
  "('f, 't) tracker_backend \<Rightarrow> 't ObjectTracker \<Rightarrow> ('f \<times> detection list) list \<Rightarrow>
   error + 't ObjectTracker" where
  "update_frames be s [] = Inr s"
| "update_frames be s (fd # fds) =
     (case update be s (fst fd) (snd fd) of
        Inl e \<Rightarrow> Inl e
      | Inr r \<Rightarrow> update_frames be (fst r) fds)"

text \<open>The ids of the live tracks, in dictionary order.\<close>

definition live_ids :: "'t ObjectTracker \<Rightarrow> int list" where
  "live_ids s = map fst (trackers s)"

text \<open>
  The two dictionaries of a tracker have the same keys, each once.  It holds after
  \<open>__init__\<close> and \<open>reset\<close> and every \<open>update\<close> keeps it.
\<close>

definition consistent :: "'t ObjectTracker \<Rightarrow> bool" where
  "consistent s \<longleftrightarrow> distinct (live_ids s) \<and> dom (disappeared s) = set (live_ids s)"

text \<open>
  The trackers a program can hold: the one \<open>__init__\<close> builds, and any tracker obtained
  from such a one by an \<open>update\<close> that returned or by \<open>reset\<close>.
\<close>

inductive reachable :: "('f, 't) tracker_backend \<Rightarrow> 't ObjectTracker \<Rightarrow> bool"
  for be :: "('f, 't) tracker_backend" where
  reachable_init: "reachable be ObjectTracker_init"
| reachable_update:
    "reachable be s \<Longrightarrow> update be s frame detections = Inr (s', objs) \<Longrightarrow> reachable be s'"
| reachable_reset: "reachable be s \<Longrightarrow> reachable be (reset s)"

text \<open>
  A backend for running the tracker on concrete inputs: the frame itself says whether
  the trackers follow their object in it, and initialisation always succeeds.
\<close>

definition scripted_backend :: "(bool, unit) tracker_backend" where
  "scripted_backend =
     \<lparr> create_tracker = (),
       tracker_init = (\<lambda>t frame box. (True, ())),
       tracker_update = (\<lambda>t frame. ((frame, (10, 20, 4, 6)), ())) \<rparr>"

definition player_detection :: detection where
  "player_detection = \<lparr> det_bbox = (10, 20, 4, 6), det_class_id = 0, det_confidence = 9 / 10 \<rparr>"

subsection \<open>detect_ball_transfer\<close>





subsection \<open>calculate_velocity\<close>

text \<open>The dictionary comprehension \<open>{obj.id: obj for obj in previous_objects}\<close>.\<close>

definition prev_objects_map :: "TrackedObject list \<Rightarrow> (int \<rightharpoonup> TrackedObject)" where
  "prev_objects_map previous_objects =
     fold (\<lambda>obj m. m(obj_id obj \<mapsto> obj)) previous_objects Map.empty"

definition set_velocity :: "(int \<rightharpoonup> TrackedObject) \<Rightarrow> TrackedObject \<Rightarrow> TrackedObject" where
  "set_velocity prev obj =
     (case prev (obj_id obj) of
        None \<Rightarrow> obj
      | Some prev_obj \<Rightarrow>
          (let vx = fst (center obj) - fst (center prev_obj);
               vy = snd (center obj) - snd (center prev_obj)
           in obj\<lparr> velocity := Some (vx, vy) \<rparr>))"

definition calculate_velocity :: "TrackedObject list \<Rightarrow> TrackedObject list \<Rightarrow> TrackedObject list" where
  "calculate_velocity tracked_objects previous_objects =
     map (set_velocity (prev_objects_map previous_objects)) tracked_objects"

section \<open>utils/tracker.py: BallTracker\<close>

record ball_sample =
  bs_frame_id :: int
  bs_position :: "real \<times> real"
  bs_bbox :: bbox

text \<open>
  \<open>predict_ball_position\<close> reads only \<open>self.ball_history\<close>, which is its first argument
  here; the default of \<open>frames_ahead\<close> is 5.
\<close>

definition predict_ball_position :: "ball_sample list \<Rightarrow> int \<Rightarrow> (real \<times> real) option" where
  "predict_ball_position ball_history frames_ahead =
     (if length ball_history < 3 then None
      else
        let recent_positions = drop (length ball_history - 3) ball_history;
            velocities =
              map (\<lambda>i. let prev_pos = bs_position (recent_positions ! (i - 1));
                           curr_pos = bs_position (recent_positions ! i)
                       in (fst curr_pos - fst prev_pos, snd curr_pos - snd prev_pos))
                  [1..<length recent_positions]
        in if velocities = [] then None
           else
             let avg_vx = sum_list (map fst velocities) / of_nat (length velocities);
                 avg_vy = sum_list (map snd velocities) / of_nat (length velocities);
                 last_pos = bs_position (last ball_history)
             in Some (fst last_pos + avg_vx * of_int frames_ahead,
                      snd last_pos + avg_vy * of_int frames_ahead))"

section \<open>Auxiliary predicates and concrete inputs\<close>

text \<open>
  What one \<open>update\<close> does to the track \<open>k\<close> whose dictionary entry was \<open>info\<close> when the loop
  over the trackers started: \<open>s\<close> is the tracker at that point and \<open>s'\<close> the tracker when
  \<open>update\<close> returns.
\<close>

definition track_outcome ::
  "('f, 't) tracker_backend \<Rightarrow> 'f \<Rightarrow> 't ObjectTracker \<Rightarrow> 't ObjectTracker \<Rightarrow> int \<Rightarrow> 't tracker_info \<Rightarrow> bool" where
  "track_outcome be frame s s' k info \<longleftrightarrow>
     (if fst (fst (tracker_update be (ti_tracker info) frame))
      then disappeared s' k = Some 0 \<and> k \<in> set (live_ids s')
      else \<exists>n. disappeared s k = Some n \<and>
             (if n + 1 > max_disappeared s
              then k \<notin> set (live_ids s') \<and> disappeared s' k = None
              else k \<in> set (live_ids s') \<and> disappeared s' k = Some (n + 1)))"

text \<open>A tracker with two live tracks, one miss and no miss away from expiry.\<close>

definition boundary_tracker :: "unit ObjectTracker" where
  "boundary_tracker =
     \<lparr> trackers = [(0, \<lparr> ti_tracker = (), ti_class_id = 0, ti_confidence = 9 / 10 \<rparr>),
                   (1, \<lparr> ti_tracker = (), ti_class_id = 1, ti_confidence = 8 / 10 \<rparr>)],
       next_id = 2, max_disappeared = 30,
       disappeared = [0 \<mapsto> 29, 1 \<mapsto> 30] \<rparr>"

text \<open>What \<open>update\<close> returns for it on a frame in which the backend follows both tracks.\<close>

definition tracked_scene :: "unit ObjectTracker" where
  "tracked_scene =
     \<lparr> trackers = [(0, \<lparr> ti_tracker = (), ti_class_id = 0, ti_confidence = 9 / 10 \<rparr>),
                   (1, \<lparr> ti_tracker = (), ti_class_id = 1, ti_confidence = 8 / 10 \<rparr>)],
       next_id = 2, max_disappeared = 30,
       disappeared = [0 \<mapsto> 0, 1 \<mapsto> 0] \<rparr>"

definition tracked_pair :: "TrackedObject list" where
  "tracked_pair =
     [\<lparr> obj_id = 0, bbox = (10, 20, 4, 6), class_id = 0, confidence = 9 / 10,
         frame_id = 0, center = (12, 23), velocity = None \<rparr>,
      \<lparr> obj_id = 1, bbox = (10, 20, 4, 6), class_id = 1, confidence = 8 / 10,
         frame_id = 0, center = (12, 23), velocity = None \<rparr>]"


text \<open>The same track in two successive frames, as \<open>update\<close> builds its objects.\<close>

definition example_current :: TrackedObject where
  "example_current = \<lparr> obj_id = 7, bbox = (10, 20, 4, 6), class_id = 0, confidence = 9 / 10,
               frame_id = 0, center = (12, 23), velocity = None \<rparr>"
definition example_previous :: TrackedObject where
  "example_previous = \<lparr> obj_id = 7, bbox = (8, 17, 4, 6), class_id = 0, confidence = 9 / 10,
               frame_id = 0, center = (10, 20), velocity = None \<rparr>"

definition sample_history :: "ball_sample list" where
  "sample_history =
     [\<lparr> bs_frame_id = 1, bs_position = (0, 0), bs_bbox = (0, 0, 2, 2) \<rparr>,
      \<lparr> bs_frame_id = 2, bs_position = (10, 10), bs_bbox = (9, 9, 2, 2) \<rparr>,
      \<lparr> bs_frame_id = 3, bs_position = (12, 14), bs_bbox = (11, 13, 2, 2) \<rparr>,
      \<lparr> bs_frame_id = 4, bs_position = (18, 16), bs_bbox = (17, 15, 2, 2) \<rparr>]"

section \<open>Properties of PitchZoneMapper\<close>

lemma create_zone_map_grid: "create_zone_map 6 3 zw zh = 
  (\<lambda>z. if 1 \<le> z \<and> z \<le> 18 then Some (of_int ((z - 1) mod 6) * zw, of_int ((z - 1) div 6) * zh, of_int ((z - 1) mod 6 + 1) * zw, of_int ((z - 1) div 6 + 1) * zh) else None)"
proof (rule ext)
  fix z :: int
  have e: "z < 1 \<or> z > 18 \<or> z = 1 \<or> z = 2 \<or> z = 3 \<or> z = 4 \<or> z = 5 \<or> z = 6 \<or> z = 7 \<or> z = 8 \<or> z = 9 \<or> z = 10 \<or> z = 11 \<or> z = 12 \<or> z = 13 \<or> z = 14 \<or> z = 15 \<or> z = 16 \<or> z = 17 \<or> z = 18" by arith
  have u6: "[0..(6::int) - 1] = [0,1,2,3,4,5]" and u3: "[0..(3::int) - 1] = [0,1,2]"
    by (simp_all add: upto.simps)
  show "create_zone_map 6 3 zw zh z = (if 1 \<le> z \<and> z \<le> 18 then Some (of_int ((z - 1) mod 6) * zw, of_int ((z - 1) div 6) * zh, of_int ((z - 1) mod 6 + 1) * zw, of_int ((z - 1) div 6 + 1) * zh) else None)"
    unfolding create_zone_map_def u6 u3 using e
    by (elim disjE) (simp_all add: create_zone_map_cell_def)
qed

lemma clamp_cell:
  fixes x d :: real and n :: int
  assumes d: "0 < d" and x0: "0 \<le> x" and xn: "x \<le> of_int n * d" and n: "1 \<le> n"
  defines "c \<equiv> min \<lfloor>x / d\<rfloor> (n - 1)"
  shows "0 \<le> c" and "c \<le> n - 1" and "of_int c * d \<le> x" and "x \<le> of_int (c + 1) * d"
proof -
  have q0: "0 \<le> x / d" using d x0 by simp
  then have f0: "0 \<le> \<lfloor>x / d\<rfloor>" by simp
  show "0 \<le> c" using f0 n by (simp add: c_def)
  show "c \<le> n - 1" by (simp add: c_def)
  have "of_int c \<le> x / d"
  proof -
    have "c \<le> \<lfloor>x / d\<rfloor>" by (simp add: c_def)
    then have "(of_int c :: real) \<le> of_int \<lfloor>x / d\<rfloor>" by simp
    also have "\<dots> \<le> x / d" by simp
    finally show ?thesis .
  qed
  then show "of_int c * d \<le> x" using d by (simp add: pos_le_divide_eq)
  show "x \<le> of_int (c + 1) * d"
  proof (cases "\<lfloor>x / d\<rfloor> \<le> n - 1")
    case True
    then have "c = \<lfloor>x / d\<rfloor>" by (simp add: c_def)
    then have "x / d \<le> of_int (c + 1)" by (simp add: add.commute) linarith
    then show ?thesis using d by (simp add: pos_divide_le_eq)
  next
    case False
    then have "c = n - 1" by (simp add: c_def)
    then show ?thesis using xn by simp
  qed
qed

lemma center_cell:
  fixes d :: real and c :: int
  assumes d: "0 < d"
  shows "\<lfloor>((of_int c * d + of_int (c + 1) * d) / 2) / d\<rfloor> = c"
proof -
  have "((of_int c * d + of_int (c + 1) * d) / 2) / d = of_int c + 1 / 2"
    using d by (simp add: field_simps)
  then show ?thesis by (simp add: floor_unique)
qed


lemma zone_id_decompose:
  fixes r c :: int
  assumes "0 \<le> c" "c \<le> 5" "0 \<le> r" "r \<le> 2"
  shows "1 \<le> r * 6 + c + 1" and "r * 6 + c + 1 \<le> 18"
    and "(r * 6 + c + 1 - 1) mod 6 = c" and "(r * 6 + c + 1 - 1) div 6 = r"
  using assms by auto

lemma init_fields:
  "pitch_width (PitchZoneMapper_init w h) = w"
  "pitch_height (PitchZoneMapper_init w h) = h"
  "zones_per_row (PitchZoneMapper_init w h) = 6"
  "zones_per_col (PitchZoneMapper_init w h) = 3"
  "zone_width (PitchZoneMapper_init w h) = of_int w / 6"
  "zone_height (PitchZoneMapper_init w h) = of_int h / 3"
  "zone_map (PitchZoneMapper_init w h) = create_zone_map 6 3 (of_int w / 6) (of_int h / 3)"
  by (simp_all add: PitchZoneMapper_init_def)

lemma pixel_to_zone_inside:
  fixes w h :: int and x y :: real
  assumes w: "0 < w" and h: "0 < h"
    and x: "0 \<le> x" "x \<le> of_int w" and y: "0 \<le> y" "y \<le> of_int h"
  shows "pixel_to_zone (PitchZoneMapper_init w h) x y =
           Inr (min \<lfloor>y / (of_int h / 3)\<rfloor> 2 * 6 + min \<lfloor>x / (of_int w / 6)\<rfloor> 5 + 1)"
  using assms by (simp add: pixel_to_zone_def init_fields floordiv_int_def)

text \<open>
  Claim C2, as the code has it.  On the default 1920 x 1080 pitch (zone width 320, zone
  height 360) \<open>pixel_to_zone(100, 100)\<close> is zone 1 and \<open>pixel_to_zone(1900, 100)\<close> is
  zone 6, but \<open>pixel_to_zone(100, 700)\<close> is zone 7: \<open>700 // 360 = 1\<close>, the middle row, and
  the bottom row only starts at \<open>y = 720\<close>.
\<close>

theorem pixel_to_zone_default_examples:
  "pixel_to_zone PitchZoneMapper_default 100 100 = Inr 1
   \<and> pixel_to_zone PitchZoneMapper_default 1900 100 = Inr 6
   \<and> pixel_to_zone PitchZoneMapper_default 100 700 = Inr 7"
  by (simp add: pixel_to_zone_def PitchZoneMapper_default_def init_fields floordiv_int_def)

text \<open>Claim C2 as stated fails at its third point: the zone of (100, 700) is not 13.\<close>

theorem pixel_to_zone_100_700_not_13:
  "pixel_to_zone PitchZoneMapper_default 100 700 \<noteq> Inr 13"
  by (simp add: pixel_to_zone_def PitchZoneMapper_default_def init_fields floordiv_int_def)

lemma pixel_to_zone_positive_pitch:
  fixes w h :: int and x y :: real
  assumes w: "0 < w" and h: "0 < h"
  shows "(0 \<le> x \<and> x \<le> of_int w \<and> 0 \<le> y \<and> y \<le> of_int h \<longrightarrow>
            (\<exists>z x1 y1 x2 y2.
                pixel_to_zone (PitchZoneMapper_init w h) x y = Inr z \<and> 1 \<le> z \<and> z \<le> 18 \<and>
                get_zone_boundaries (PitchZoneMapper_init w h) z = Inr (x1, y1, x2, y2) \<and>
                x1 \<le> x \<and> x \<le> x2 \<and> y1 \<le> y \<and> y \<le> y2))
       \<and> (\<not> (0 \<le> x \<and> x \<le> of_int w \<and> 0 \<le> y \<and> y \<le> of_int h) \<longrightarrow>
            pixel_to_zone (PitchZoneMapper_init w h) x y = Inr 0)"
proof (intro conjI impI)
  assume "\<not> (0 \<le> x \<and> x \<le> of_int w \<and> 0 \<le> y \<and> y \<le> of_int h)"
  then show "pixel_to_zone (PitchZoneMapper_init w h) x y = Inr 0"
    by (simp add: pixel_to_zone_def init_fields)
next
  assume inside: "0 \<le> x \<and> x \<le> of_int w \<and> 0 \<le> y \<and> y \<le> of_int h"
  define zw :: real where "zw = of_int w / 6"
  define zh :: real where "zh = of_int h / 3"
  define c where "c = min \<lfloor>x / zw\<rfloor> (6 - 1)"
  define r where "r = min \<lfloor>y / zh\<rfloor> (3 - 1)"
  have zw: "0 < zw" and zh: "0 < zh" using w h by (simp_all add: zw_def zh_def)
  have xw: "x \<le> of_int 6 * zw" and yh: "y \<le> of_int 3 * zh"
    using inside by (simp_all add: zw_def zh_def)
  have cb: "0 \<le> c" "c \<le> 5" "of_int c * zw \<le> x" "x \<le> of_int (c + 1) * zw"
    using clamp_cell[OF zw _ xw, folded c_def] inside by simp_all
  have rb: "0 \<le> r" "r \<le> 2" "of_int r * zh \<le> y" "y \<le> of_int (r + 1) * zh"
    using clamp_cell[OF zh _ yh, folded r_def] inside by simp_all
  have pz: "pixel_to_zone (PitchZoneMapper_init w h) x y = Inr (r * 6 + c + 1)"
    using pixel_to_zone_inside[OF w h, of x y] inside
    by (simp add: c_def r_def zw_def zh_def)
  note zd = zone_id_decompose[OF cb(1,2) rb(1,2)]
  have gb: "get_zone_boundaries (PitchZoneMapper_init w h) (r * 6 + c + 1) =
              Inr (of_int c * zw, of_int r * zh, of_int (c + 1) * zw, of_int (r + 1) * zh)"
    using zd by (simp add: get_zone_boundaries_def init_fields create_zone_map_grid zw_def zh_def)
  show "\<exists>z x1 y1 x2 y2.
          pixel_to_zone (PitchZoneMapper_init w h) x y = Inr z \<and> 1 \<le> z \<and> z \<le> 18 \<and>
          get_zone_boundaries (PitchZoneMapper_init w h) z = Inr (x1, y1, x2, y2) \<and>
          x1 \<le> x \<and> x \<le> x2 \<and> y1 \<le> y \<and> y \<le> y2"
    using pz gb zd(1,2) cb(3,4) rb(3,4) by blast
qed

text \<open>
  Claim C6.  On a pitch whose sides are not 0 (a side of 0 gives zones of width or height
  0, which is no grid), every point of the pitch rectangle, its right and bottom edges
  included, is mapped without error to a zone number between 1 and 18, and the boundaries
  \<open>get_zone_boundaries\<close> returns for that zone contain the point.  On every pitch, every
  point outside the rectangle is mapped to 0.
\<close>

theorem pixel_to_zone_within_boundaries:
  fixes w h :: int and x y :: real
  shows "(w \<noteq> 0 \<and> h \<noteq> 0 \<and> 0 \<le> x \<and> x \<le> of_int w \<and> 0 \<le> y \<and> y \<le> of_int h \<longrightarrow>
            (\<exists>z x1 y1 x2 y2.
                pixel_to_zone (PitchZoneMapper_init w h) x y = Inr z \<and> 1 \<le> z \<and> z \<le> 18 \<and>
                get_zone_boundaries (PitchZoneMapper_init w h) z = Inr (x1, y1, x2, y2) \<and>
                x1 \<le> x \<and> x \<le> x2 \<and> y1 \<le> y \<and> y \<le> y2))
       \<and> (\<not> (0 \<le> x \<and> x \<le> of_int w \<and> 0 \<le> y \<and> y \<le> of_int h) \<longrightarrow>
            pixel_to_zone (PitchZoneMapper_init w h) x y = Inr 0)"
proof (intro conjI impI)
  assume "\<not> (0 \<le> x \<and> x \<le> of_int w \<and> 0 \<le> y \<and> y \<le> of_int h)"
  then show "pixel_to_zone (PitchZoneMapper_init w h) x y = Inr 0"
    by (simp add: pixel_to_zone_def init_fields)
next
  assume a: "w \<noteq> 0 \<and> h \<noteq> 0 \<and> 0 \<le> x \<and> x \<le> of_int w \<and> 0 \<le> y \<and> y \<le> of_int h"
  then have "(0::real) \<le> of_int w" and "(0::real) \<le> of_int h" by linarith+
  then have "0 \<le> w" and "0 \<le> h" by simp_all
  with a have w: "0 < w" and h: "0 < h" by simp_all
  from a have inside: "0 \<le> x \<and> x \<le> of_int w \<and> 0 \<le> y \<and> y \<le> of_int h" by simp
  show "\<exists>z x1 y1 x2 y2.
          pixel_to_zone (PitchZoneMapper_init w h) x y = Inr z \<and> 1 \<le> z \<and> z \<le> 18 \<and>
          get_zone_boundaries (PitchZoneMapper_init w h) z = Inr (x1, y1, x2, y2) \<and>
          x1 \<le> x \<and> x \<le> x2 \<and> y1 \<le> y \<and> y \<le> y2"
    by (rule mp[OF conjunct1[OF pixel_to_zone_positive_pitch[OF w h, of x y]] inside])
qed

theorem pixel_to_zone_within_boundaries_witness:
  "pixel_to_zone (PitchZoneMapper_init 1920 1080) 1920 1080 = Inr 18 \<and>
   get_zone_boundaries (PitchZoneMapper_init 1920 1080) 18 = Inr (1600, 720, 1920, 1080) \<and>
   pixel_to_zone (PitchZoneMapper_init 1920 1080) 2000 5 = Inr 0 \<and>
   pixel_to_zone (PitchZoneMapper_init 0 0) 1 1 = Inr 0"
  using pixel_to_zone_within_boundaries[of 1920 1080 1920 1080]
        pixel_to_zone_within_boundaries[of 1920 1080 2000 5]
        pixel_to_zone_within_boundaries[of 0 0 1 1]
  by (simp add: pixel_to_zone_def init_fields floordiv_int_def get_zone_boundaries_def
      create_zone_map_grid)

text \<open>
  The sides must not be 0: on a pitch of width 0 the zone width is 0 and
  \<open>x // self.zone_width\<close> divides by zero for the points of the rectangle.
\<close>

lemma pixel_to_zone_zero_width_raises:
  "pixel_to_zone (PitchZoneMapper_init 0 1080) 0 100 = Inl ZeroDivisionError"
  by (simp add: pixel_to_zone_def init_fields floordiv_int_def)

text \<open>
  Claim C10.  On every pitch of positive width and height, and for every zone number
  \<open>z\<close> from 1 to 18, \<open>zone_to_pixel_center\<close> returns a point and \<open>pixel_to_zone\<close> maps that
  point back to \<open>z\<close>.
\<close>

theorem zone_center_maps_back:
  fixes w h z :: int
  assumes w: "0 < w" and h: "0 < h" and z: "1 \<le> z" "z \<le> 18"
  shows "\<exists>cx cy. zone_to_pixel_center (PitchZoneMapper_init w h) z = Inr (cx, cy) \<and>
                 pixel_to_zone (PitchZoneMapper_init w h) cx cy = Inr z"
proof -
  define zw :: real where "zw = of_int w / 6"
  define zh :: real where "zh = of_int h / 3"
  define c where "c = (z - 1) mod 6"
  define r where "r = (z - 1) div 6"
  define cx where "cx = (of_int c * zw + of_int (c + 1) * zw) / 2"
  define cy where "cy = (of_int r * zh + of_int (r + 1) * zh) / 2"
  have zw: "0 < zw" and zh: "0 < zh" using w h by (simp_all add: zw_def zh_def)
  have cb: "0 \<le> c" "c \<le> 5" and rb: "0 \<le> r" "r \<le> 2" and zrc: "r * 6 + c + 1 = z"
    using z by (auto simp: c_def r_def)
  have ctr: "zone_to_pixel_center (PitchZoneMapper_init w h) z = Inr (cx, cy)"
    using z by (simp add: zone_to_pixel_center_def init_fields create_zone_map_grid cx_def cy_def c_def r_def zw_def zh_def)
  have cxe: "cx = (of_int c + 1 / 2) * zw" and cye: "cy = (of_int r + 1 / 2) * zh"
    by (simp_all add: cx_def cy_def field_simps)
  have "0 \<le> cx" using cb zw by (simp add: cxe)
  moreover have "cx \<le> of_int w"
  proof -
    have "(of_int c + 1 / 2) * zw \<le> 6 * zw"
      using cb zw by (intro mult_right_mono) simp_all
    then show ?thesis by (simp add: cxe zw_def)
  qed
  moreover have "0 \<le> cy" using rb zh by (simp add: cye)
  moreover have "cy \<le> of_int h"
  proof -
    have "(of_int r + 1 / 2) * zh \<le> 3 * zh"
      using rb zh by (intro mult_right_mono) simp_all
    then show ?thesis by (simp add: cye zh_def)
  qed
  ultimately have "pixel_to_zone (PitchZoneMapper_init w h) cx cy =
      Inr (min \<lfloor>cy / zh\<rfloor> 2 * 6 + min \<lfloor>cx / zw\<rfloor> 5 + 1)"
    using pixel_to_zone_inside[OF w h, of cx cy] by (simp add: zw_def zh_def)
  moreover have "\<lfloor>cx / zw\<rfloor> = c" unfolding cx_def by (rule center_cell[OF zw])
  moreover have "\<lfloor>cy / zh\<rfloor> = r" unfolding cy_def by (rule center_cell[OF zh])
  ultimately have "pixel_to_zone (PitchZoneMapper_init w h) cx cy = Inr z"
    using cb rb zrc by simp
  with ctr show ?thesis by blast
qed

theorem zone_center_maps_back_witness:
  "zone_to_pixel_center (PitchZoneMapper_init 1920 1080) 8 = Inr (480, 540) \<and>
   pixel_to_zone (PitchZoneMapper_init 1920 1080) 480 540 = Inr 8"
  using zone_center_maps_back[of 1920 1080 8]
  by (simp add: pixel_to_zone_def init_fields floordiv_int_def zone_to_pixel_center_def
      create_zone_map_grid)

subsection \<open>detect_fast_break\<close>

text \<open>
  Claim C3.  With the default thresholds, a zone sequence of length \<open>n\<close> and sum \<open>s\<close> is a
  fast-break exactly when \<open>n \<ge> 3\<close> and \<open>s > 9\<close>, or \<open>3 < n \<le> 5\<close> and \<open>s > 12\<close>.
\<close>

theorem detect_fast_break_default_iff:
  "detect_fast_break_default zs \<longleftrightarrow>
     (3 \<le> int (length zs) \<and> 9 < sum_list zs)
     \<or> (3 < int (length zs) \<and> int (length zs) \<le> 5 \<and> 12 < sum_list zs)"
  by (auto simp: detect_fast_break_default_def detect_fast_break_def calculate_zone_sum_def Let_def)

text \<open>
  Claim C1, as the code has it.  With the default thresholds both \<open>[1, 2, 3, 6]\<close> (4
  passes, zone sum 12) and \<open>[1, 2, 3, 7]\<close> (4 passes, zone sum 13) are fast-breaks: the
  first rule already accepts 3 or more passes with a zone sum above 9.
\<close>

theorem fast_break_four_pass_sequences:
  "detect_fast_break_default [1, 2, 3, 6] \<and> detect_fast_break_default [1, 2, 3, 7]"
  by (simp add: detect_fast_break_default_def detect_fast_break_def calculate_zone_sum_def)

text \<open>Claim C1 as stated fails: \<open>[1, 2, 3, 6]\<close> is classified as a fast-break.\<close>

theorem fast_break_sum_12_not_rejected:
  "\<not> (\<not> detect_fast_break_default [1, 2, 3, 6] \<and> detect_fast_break_default [1, 2, 3, 7])"
  by (simp add: detect_fast_break_default_def detect_fast_break_def calculate_zone_sum_def)

section \<open>Properties of ObjectTracker.update\<close>

lemma map_fst_store_tracker: "map fst (store_tracker k t d) = map fst d"
  by (induction d) (auto simp: store_tracker_def)

lemma keys_store_tracker: "fst ` set (store_tracker k t d) = fst ` set d"
  using map_fst_store_tracker[of k t d] by (metis set_map)

lemma map_fst_filter_key:
  "map fst (filter (\<lambda>kv. fst kv \<noteq> k) d) = filter (\<lambda>k'. k' \<noteq> k) (map fst d)"
  by (induction d) auto

lemma live_ids_simps [simp]:
  "live_ids (s\<lparr>trackers := store_tracker k t (trackers s)\<rparr>) = live_ids s"
  "live_ids (s\<lparr>disappeared := m\<rparr>) = live_ids s"
  "live_ids (s\<lparr>trackers := d, disappeared := m\<rparr>) = map fst d"
  "live_ids (s\<lparr>trackers := filter (\<lambda>kv. fst kv \<noteq> k) d\<rparr>) = filter (\<lambda>k'. k' \<noteq> k) (map fst d)"
  by (simp_all add: live_ids_def map_fst_store_tracker map_fst_filter_key)

lemma update_track_success:
  assumes "tracker_update be (ti_tracker info) frame = ((True, (x, y, w, h)), t')"
  shows "update_track be frame (k, info) (s, objs) =
           Inr (s\<lparr> trackers := store_tracker k t' (trackers s),
                   disappeared := (disappeared s)(k \<mapsto> 0) \<rparr>,
                objs @ [\<lparr> obj_id = k, bbox = (x, y, w, h), class_id = ti_class_id info,
                          confidence = ti_confidence info, frame_id = 0,
                          center = (x + w / 2, y + h / 2), velocity = None \<rparr>])"
  using assms by (simp add: update_track_def)

lemma update_track_miss_kept:
  assumes "tracker_update be (ti_tracker info) frame = ((False, box), t')"
    and "disappeared s k = Some n" and "\<not> n + 1 > max_disappeared s"
  shows "update_track be frame (k, info) (s, objs) =
           Inr (s\<lparr> trackers := store_tracker k t' (trackers s),
                   disappeared := (disappeared s)(k \<mapsto> n + 1) \<rparr>, objs)"
  using assms by (simp add: update_track_def)

lemma update_track_miss_removed:
  assumes "tracker_update be (ti_tracker info) frame = ((False, box), t')"
    and "disappeared s k = Some n" and "n + 1 > max_disappeared s"
    and "k \<in> set (live_ids s)"
  shows "update_track be frame (k, info) (s, objs) =
           Inr (s\<lparr> trackers := filter (\<lambda>kv. fst kv \<noteq> k) (store_tracker k t' (trackers s)),
                   disappeared := (disappeared s)(k := None) \<rparr>, objs)"
  using assms
  by (simp add: update_track_def dict_del_def keys_store_tracker live_ids_def Let_def)

lemma update_track_effect:
  assumes cons: "consistent s" and live: "k \<in> set (live_ids s)"
  shows "\<exists>s' objs'. update_track be frame (k, info) (s, objs) = Inr (s', objs') \<and>
           consistent s' \<and> max_disappeared s' = max_disappeared s \<and> next_id s' = next_id s \<and>
           set (live_ids s') \<subseteq> set (live_ids s) \<and>
           (\<forall>k'. k' \<noteq> k \<longrightarrow> disappeared s' k' = disappeared s k' \<and>
                  (k' \<in> set (live_ids s') \<longleftrightarrow> k' \<in> set (live_ids s))) \<and>
           track_outcome be frame s s' k info"
proof -
  from cons live obtain n where n: "disappeared s k = Some n"
    by (auto simp: consistent_def)
  from cons have dist: "distinct (live_ids s)"
    and dm: "dom (disappeared s) = set (live_ids s)"
    by (simp_all add: consistent_def)
  obtain ok box t' where r: "tracker_update be (ti_tracker info) frame = ((ok, box), t')"
    by (metis prod.exhaust)
  obtain x y w h where box: "box = (x, y, w, h)" by (metis prod.exhaust)
  show ?thesis
  proof (cases ok)
    case True
    with r box have r': "tracker_update be (ti_tracker info) frame = ((True, (x, y, w, h)), t')"
      by simp
    show ?thesis
      unfolding update_track_success[OF r']
      using dist dm live r' by (auto simp: consistent_def track_outcome_def)
  next
    case False
    with r have r': "tracker_update be (ti_tracker info) frame = ((False, box), t')" by simp
    show ?thesis
    proof (cases "n + 1 > max_disappeared s")
      case True
      show ?thesis
        unfolding update_track_miss_removed[OF r' n True live]
        using dist dm live r' n True
        by (auto simp: consistent_def track_outcome_def map_fst_store_tracker live_ids_def[of s])
    next
      case nb: False
      show ?thesis
        unfolding update_track_miss_kept[OF r' n nb]
        using dist dm live r' n nb by (auto simp: consistent_def track_outcome_def)
    qed
  qed
qed


lemma track_outcome_cong:
  assumes "track_outcome be frame s1 s2 k info"
    and "disappeared s1' k = disappeared s1 k" and "max_disappeared s1' = max_disappeared s1"
    and "disappeared s2' k = disappeared s2 k"
    and "k \<in> set (live_ids s2') \<longleftrightarrow> k \<in> set (live_ids s2)"
  shows "track_outcome be frame s1' s2' k info"
  using assms(1) unfolding track_outcome_def assms(2-5) .

lemma update_tracks_effect:
  assumes "consistent s" and "distinct (map fst items)"
    and "fst ` set items \<subseteq> set (live_ids s)"
  shows "\<exists>s' objs'. update_tracks be frame items (s, objs) = Inr (s', objs') \<and>
           consistent s' \<and> max_disappeared s' = max_disappeared s \<and> next_id s' = next_id s \<and>
           set (live_ids s') \<subseteq> set (live_ids s) \<and>
           (\<forall>k'. k' \<notin> fst ` set items \<longrightarrow> disappeared s' k' = disappeared s k' \<and>
                  (k' \<in> set (live_ids s') \<longleftrightarrow> k' \<in> set (live_ids s))) \<and>
           (\<forall>item \<in> set items. track_outcome be frame s s' (fst item) (snd item))"
  using assms
proof (induction items arbitrary: s objs)
  case Nil
  then show ?case by simp
next
  case (Cons item items)
  obtain k info where item: "item = (k, info)" by (cases item)
  from Cons.prems(3) item have live: "k \<in> set (live_ids s)" by simp
  from Cons.prems(2) item have fresh: "k \<notin> fst ` set items" by simp
  from Cons.prems(2) have dist: "distinct (map fst items)" by simp
  from Cons.prems(3) have sub: "fst ` set items \<subseteq> set (live_ids s)" by simp
  from update_track_effect[OF Cons.prems(1) live, of be frame info objs]
  obtain s1 objs1 where
    step: "update_track be frame (k, info) (s, objs) = Inr (s1, objs1)"
    and c1: "consistent s1"
    and m1: "max_disappeared s1 = max_disappeared s" and n1: "next_id s1 = next_id s"
    and l1: "set (live_ids s1) \<subseteq> set (live_ids s)"
    and o1: "\<forall>k'. k' \<noteq> k \<longrightarrow> disappeared s1 k' = disappeared s k' \<and>
                  (k' \<in> set (live_ids s1) \<longleftrightarrow> k' \<in> set (live_ids s))"
    and t1: "track_outcome be frame s s1 k info"
    by (elim exE conjE) (rule that, assumption+)
  have sub1: "fst ` set items \<subseteq> set (live_ids s1)"
  proof
    fix k' assume k': "k' \<in> fst ` set items"
    with fresh have "k' \<noteq> k" by auto
    with o1 have "k' \<in> set (live_ids s1) \<longleftrightarrow> k' \<in> set (live_ids s)" by simp
    with sub k' show "k' \<in> set (live_ids s1)" by auto
  qed
  from Cons.IH[OF c1 dist sub1, of objs1]
  obtain s' objs' where
    rest: "update_tracks be frame items (s1, objs1) = Inr (s', objs')"
    and c2: "consistent s'"
    and m2: "max_disappeared s' = max_disappeared s1" and n2: "next_id s' = next_id s1"
    and l2: "set (live_ids s') \<subseteq> set (live_ids s1)"
    and o2: "\<forall>k'. k' \<notin> fst ` set items \<longrightarrow> disappeared s' k' = disappeared s1 k' \<and>
                  (k' \<in> set (live_ids s') \<longleftrightarrow> k' \<in> set (live_ids s1))"
    and t2: "\<forall>it \<in> set items. track_outcome be frame s1 s' (fst it) (snd it)"
    by (elim exE conjE) (rule that, assumption+)
  have run: "update_tracks be frame (item # items) (s, objs) = Inr (s', objs')"
    using step rest item by simp
  have others: "\<forall>k'. k' \<notin> fst ` set (item # items) \<longrightarrow> disappeared s' k' = disappeared s k' \<and>
                  (k' \<in> set (live_ids s') \<longleftrightarrow> k' \<in> set (live_ids s))"
  proof (intro allI impI)
    fix k' assume "k' \<notin> fst ` set (item # items)"
    then have a: "k' \<noteq> k" and b: "k' \<notin> fst ` set items" using item by simp_all
    from o1 a have "disappeared s1 k' = disappeared s k' \<and>
                  (k' \<in> set (live_ids s1) \<longleftrightarrow> k' \<in> set (live_ids s))" by simp
    moreover from o2 b have "disappeared s' k' = disappeared s1 k' \<and>
                  (k' \<in> set (live_ids s') \<longleftrightarrow> k' \<in> set (live_ids s1))" by simp
    ultimately show "disappeared s' k' = disappeared s k' \<and>
                  (k' \<in> set (live_ids s') \<longleftrightarrow> k' \<in> set (live_ids s))" by simp
  qed
  from o2 fresh have h2: "disappeared s' k = disappeared s1 k"
    "k \<in> set (live_ids s') \<longleftrightarrow> k \<in> set (live_ids s1)" by simp_all
  have head: "track_outcome be frame s s' k info"
    by (rule track_outcome_cong[OF t1 refl refl h2])
  have tail: "track_outcome be frame s s' (fst it) (snd it)" if "it \<in> set items" for it
  proof -
    from that fresh have ne: "fst it \<noteq> k" by force
    from t2 that have t: "track_outcome be frame s1 s' (fst it) (snd it)" by simp
    from o1 ne have e: "disappeared s (fst it) = disappeared s1 (fst it)" by simp
    show ?thesis
      by (rule track_outcome_cong[OF t e m1[symmetric] refl refl])
  qed
  have all: "\<forall>it \<in> set (item # items). track_outcome be frame s s' (fst it) (snd it)"
    using head tail item by simp
  show ?case
  proof (intro exI conjI)
    show "update_tracks be frame (item # items) (s, objs) = Inr (s', objs')" by (rule run)
    show "consistent s'" by (rule c2)
    show "max_disappeared s' = max_disappeared s" using m1 m2 by simp
    show "next_id s' = next_id s" using n1 n2 by simp
    show "set (live_ids s') \<subseteq> set (live_ids s)" using l1 l2 by (rule subset_trans[rotated])
    show "\<forall>k'. k' \<notin> fst ` set (item # items) \<longrightarrow> disappeared s' k' = disappeared s k' \<and>
                  (k' \<in> set (live_ids s') \<longleftrightarrow> k' \<in> set (live_ids s))" by (rule others)
    show "\<forall>it \<in> set (item # items). track_outcome be frame s s' (fst it) (snd it)" by (rule all)
  qed
qed

lemma init_track_effect:
  assumes "consistent s" and "\<forall>k \<in> set (live_ids s). k < next_id s"
  shows "consistent (init_track be frame det s) \<and>
         (\<forall>k \<in> set (live_ids (init_track be frame det s)). k < next_id (init_track be frame det s)) \<and>
         max_disappeared (init_track be frame det s) = max_disappeared s"
proof -
  from assms(2) have "next_id s \<notin> set (map fst (trackers s))"
    by (auto simp: live_ids_def)
  then show ?thesis using assms
    by (cases "fst (tracker_init be (create_tracker be) frame (det_bbox det))")
       (auto simp: init_track_def Let_def dict_set_def consistent_def live_ids_def)
qed

lemma fold_init_track_effect:
  assumes "consistent s" and "\<forall>k \<in> set (live_ids s). k < next_id s"
  shows "consistent (fold (init_track be frame) dets s) \<and>
         max_disappeared (fold (init_track be frame) dets s) = max_disappeared s"
  using assms
proof (induction dets arbitrary: s)
  case Nil
  then show ?case by simp
next
  case (Cons d dets)
  from init_track_effect[OF Cons.prems, of be frame d] Cons.IH[of "init_track be frame d s"]
  show ?case by simp
qed

lemma bootstrap_consistent:
  assumes "consistent s"
  shows "consistent (bootstrap be s frame dets)"
    and "max_disappeared (bootstrap be s frame dets) = max_disappeared s"
proof -
  have "trackers s = [] \<Longrightarrow> \<forall>k \<in> set (live_ids s). k < next_id s"
    by (simp add: live_ids_def)
  then show "consistent (bootstrap be s frame dets)"
    and "max_disappeared (bootstrap be s frame dets) = max_disappeared s"
    using fold_init_track_effect[OF assms, of be frame dets] assms
    by (auto simp: bootstrap_def)
qed

lemma bootstrap_live [simp]: "trackers s \<noteq> [] \<Longrightarrow> bootstrap be s frame dets = s"
  by (simp add: bootstrap_def)

lemma update_effect:
  assumes "consistent s"
  shows "\<exists>s' objs. update be s frame dets = Inr (s', objs) \<and>
           consistent s' \<and> max_disappeared s' = max_disappeared s \<and>
           next_id s' = next_id (bootstrap be s frame dets) \<and>
           set (live_ids s') \<subseteq> set (live_ids (bootstrap be s frame dets)) \<and>
           (\<forall>item \<in> set (trackers (bootstrap be s frame dets)).
               track_outcome be frame (bootstrap be s frame dets) s' (fst item) (snd item))"
proof -
  define s1 where "s1 = bootstrap be s frame dets"
  have c1: "consistent s1" and m1: "max_disappeared s1 = max_disappeared s"
    using bootstrap_consistent[OF assms(1)] by (simp_all add: s1_def)
  have d: "distinct (map fst (trackers s1))" and sub: "fst ` set (trackers s1) \<subseteq> set (live_ids s1)"
    using c1 by (simp_all add: consistent_def live_ids_def)
  from update_tracks_effect[OF c1 d sub, of be frame "[]"]
  obtain s' objs where
    run: "update_tracks be frame (trackers s1) (s1, []) = Inr (s', objs)"
    and c2: "consistent s'" and m2: "max_disappeared s' = max_disappeared s1"
    and n2: "next_id s' = next_id s1" and l2: "set (live_ids s') \<subseteq> set (live_ids s1)"
    and t2: "\<forall>item \<in> set (trackers s1). track_outcome be frame s1 s' (fst item) (snd item)"
    by blast
  have "update be s frame dets = Inr (s', objs)"
    using run by (simp add: update_def s1_def)
  then show ?thesis
    using c2 m1 m2 n2 l2 t2 unfolding s1_def by (intro exI conjI) simp_all
qed

lemma consistent_init: "consistent ObjectTracker_init"
  by (simp add: consistent_def live_ids_def ObjectTracker_init_def)

lemma consistent_reset: "consistent (reset s)"
  by (simp add: consistent_def live_ids_def reset_def)

lemma update_consistent:
  assumes "consistent s" and "update be s frame dets = Inr (s', objs)"
  shows "consistent s'" and "max_disappeared s' = max_disappeared s"
  using update_effect[OF assms(1), of be frame dets] assms(2) by auto

lemma update_frames_consistent:
  assumes "consistent s" and "update_frames be s fds = Inr s'"
  shows "consistent s' \<and> max_disappeared s' = max_disappeared s"
  using assms
proof (induction fds arbitrary: s)
  case Nil
  then show ?case by simp
next
  case (Cons fd fds)
  from Cons.prems(2) obtain s1 objs where
    u: "update be s (fst fd) (snd fd) = Inr (s1, objs)" and r: "update_frames be s1 fds = Inr s'"
    by (auto split: sum.splits)
  from update_consistent[OF Cons.prems(1) u] Cons.IH[OF _ r] show ?case by simp
qed

lemma reachable_consistent:
  assumes "reachable be s"
  shows "consistent s \<and> max_disappeared s = 30"
  using assms
proof (induction rule: reachable.induct)
  case reachable_init
  show ?case by (simp add: consistent_init) (simp add: ObjectTracker_init_def)
next
  case (reachable_update s frame detections s' objs)
  then show ?case using update_consistent[of s be frame detections s' objs] by simp
next
  case (reachable_reset s)
  then show ?case by (simp add: consistent_reset) (simp add: reset_def)
qed

lemma consistent_boundary_tracker: "consistent boundary_tracker"
  by (auto simp: boundary_tracker_def consistent_def live_ids_def)

lemmas run_simps = boundary_tracker_def live_ids_def update_def bootstrap_def
      update_track_def scripted_backend_def store_tracker_def dict_del_def Let_def

lemma update_track_velocity:
  assumes "update_track be frame item (s, objs) = Inr (s', objs')"
    and "\<forall>obj \<in> set objs. velocity obj = None"
  shows "\<forall>obj \<in> set objs'. velocity obj = None"
  using assms
  by (auto simp: update_track_def Let_def split: if_splits option.splits sum.splits prod.splits)

lemma update_tracks_velocity:
  assumes "update_tracks be frame items st = Inr st'"
    and "\<forall>obj \<in> set (snd st). velocity obj = None"
  shows "\<forall>obj \<in> set (snd st'). velocity obj = None"
  using assms
proof (induction items arbitrary: st)
  case Nil
  then show ?case by simp
next
  case (Cons item items)
  from Cons.prems(1) obtain st1 where
    a: "update_track be frame item st = Inr st1" and b: "update_tracks be frame items st1 = Inr st'"
    by (auto split: sum.splits)
  from a Cons.prems(2) have "\<forall>obj \<in> set (snd st1). velocity obj = None"
    using update_track_velocity[of be frame item "fst st" "snd st" "fst st1" "snd st1"] by simp
  with Cons.IH[OF b] show ?case by simp
qed

lemma update_objects_without_velocity:
  assumes "update be s frame dets = Inr (s', objs)"
  shows "\<forall>obj \<in> set objs. velocity obj = None"
  using update_tracks_velocity[of be frame "trackers (bootstrap be s frame dets)"
          "(bootstrap be s frame dets, [])" "(s', objs)"] assms
  by (simp add: update_def Let_def)

text \<open>
  Claim C5.  Take a tracker whose two dictionaries agree and whose limit is the 30 that
  \<open>__init__\<close> sets (every reachable tracker is one, by \<open>reachable_consistent\<close>), and any track \<open>k\<close> that is live when \<open>update\<close> starts its loop over the
  trackers (for a tracker that already holds tracks, \<open>bootstrap\<close> returns it unchanged).
  Then \<open>update\<close> returns normally and, when it returns: if the backend followed the track,
  its counter is 0 and the track is live; if the backend lost it, the counter \<open>n\<close> it had
  became \<open>n + 1\<close>, and the track is removed, with its counter, exactly when \<open>n + 1 > 30\<close>.
  So a counter reaching 30 keeps the track and a counter reaching 31 removes it.
\<close>

theorem disappeared_counter_per_update:
  assumes "consistent s" and "max_disappeared s = 30"
    and "(k, info) \<in> set (trackers (bootstrap be s frame dets))"
  shows "\<exists>s' objs. update be s frame dets = Inr (s', objs) \<and>
     (if fst (fst (tracker_update be (ti_tracker info) frame))
      then disappeared s' k = Some 0 \<and> k \<in> set (live_ids s')
      else \<exists>n. disappeared (bootstrap be s frame dets) k = Some n \<and>
         (if n + 1 > 30 then k \<notin> set (live_ids s') \<and> disappeared s' k = None
          else k \<in> set (live_ids s') \<and> disappeared s' k = Some (n + 1)))"
proof -
  from update_effect[OF assms(1), of be frame dets]
  obtain s' objs where u: "update be s frame dets = Inr (s', objs)"
    and t: "\<forall>item \<in> set (trackers (bootstrap be s frame dets)).
               track_outcome be frame (bootstrap be s frame dets) s' (fst item) (snd item)"
    by (elim exE conjE) (rule that, assumption+)
  from t assms(3) have o: "track_outcome be frame (bootstrap be s frame dets) s' k info"
    by force
  have m: "max_disappeared (bootstrap be s frame dets) = 30"
    using bootstrap_consistent(2)[OF assms(1), of be frame dets] assms(2) by simp
  show ?thesis
    by (intro exI conjI, rule u, rule o[unfolded track_outcome_def m])
qed

theorem disappeared_counter_per_update_witness:
  "consistent boundary_tracker \<and> max_disappeared boundary_tracker = 30 \<and>
   (case update scripted_backend boundary_tracker False [] of
      Inl e \<Rightarrow> False
    | Inr r \<Rightarrow> live_ids (fst r) = [0] \<and> disappeared (fst r) 0 = Some 30 \<and>
              disappeared (fst r) 1 = None) \<and>
   (case update scripted_backend boundary_tracker True [] of
      Inl e \<Rightarrow> False
    | Inr r \<Rightarrow> live_ids (fst r) = [0, 1] \<and> disappeared (fst r) 0 = Some 0 \<and>
              disappeared (fst r) 1 = Some 0)"
proof -
  have m: "max_disappeared boundary_tracker = 30" by (simp add: boundary_tracker_def)
  have i0: "(0, \<lparr> ti_tracker = (), ti_class_id = 0, ti_confidence = 9 / 10 \<rparr>)
            \<in> set (trackers (bootstrap scripted_backend boundary_tracker False []))"
    by (simp add: boundary_tracker_def bootstrap_def)
  note t = disappeared_counter_per_update[OF consistent_boundary_tracker m i0]
  have "case update scripted_backend boundary_tracker False [] of
      Inl e \<Rightarrow> False
    | Inr r \<Rightarrow> live_ids (fst r) = [0] \<and> disappeared (fst r) 0 = Some 30 \<and>
              disappeared (fst r) 1 = None"
    using t by (simp add: run_simps)
  moreover have "case update scripted_backend boundary_tracker True [] of
      Inl e \<Rightarrow> False
    | Inr r \<Rightarrow> live_ids (fst r) = [0, 1] \<and> disappeared (fst r) 0 = Some 0 \<and>
              disappeared (fst r) 1 = Some 0"
    by (simp add: run_simps)
  ultimately show ?thesis using consistent_boundary_tracker m by simp
qed

text \<open>
  Claim C4, as the code has it.  While the tracker holds at least one live track, a call
  to \<open>update\<close> returns normally, creates no track and hands out no id: the live ids after
  the call are among those before it, there are no more of them, and \<open>next_id\<close> is
  unchanged, whatever detections the call receives.
\<close>

theorem update_adds_no_track_while_live:
  assumes "consistent s" and "trackers s \<noteq> []"
  shows "\<exists>s' objs. update be s frame dets = Inr (s', objs) \<and>
           set (live_ids s') \<subseteq> set (live_ids s) \<and>
           length (live_ids s') \<le> length (live_ids s) \<and>
           next_id s' = next_id s"
proof -
  from update_effect[OF assms(1), of be frame dets]
  obtain s' objs where u: "update be s frame dets = Inr (s', objs)"
    and c: "consistent s'"
    and n: "next_id s' = next_id (bootstrap be s frame dets)"
    and l: "set (live_ids s') \<subseteq> set (live_ids (bootstrap be s frame dets))"
    by (elim exE conjE) (rule that, assumption+)
  from assms(2) have b: "bootstrap be s frame dets = s" by simp
  have "card (set (live_ids s')) \<le> card (set (live_ids s))"
    using l b by (simp add: card_mono)
  moreover have "distinct (live_ids s')" "distinct (live_ids s)"
    using c assms(1) by (simp_all add: consistent_def)
  ultimately have "length (live_ids s') \<le> length (live_ids s)"
    by (simp add: distinct_card)
  with u n l b show ?thesis by auto
qed

theorem update_adds_no_track_while_live_witness:
  "consistent boundary_tracker \<and> trackers boundary_tracker \<noteq> [] \<and>
   (case update scripted_backend boundary_tracker False [player_detection, player_detection] of
      Inl e \<Rightarrow> False
    | Inr r \<Rightarrow> live_ids (fst r) = [0] \<and> next_id (fst r) = 2)"
proof -
  have n: "trackers boundary_tracker \<noteq> []" by (simp add: boundary_tracker_def)
  note t = update_adds_no_track_while_live[OF consistent_boundary_tracker n,
             of scripted_backend False "[player_detection, player_detection]"]
  have "case update scripted_backend boundary_tracker False [player_detection, player_detection] of
      Inl e \<Rightarrow> False
    | Inr r \<Rightarrow> live_ids (fst r) = [0] \<and> next_id (fst r) = 2"
    using t by (simp add: run_simps)
  then show ?thesis using consistent_boundary_tracker n by simp
qed

text \<open>
  Claim C4 as stated fails once every track has expired.  One frame bootstraps track 0;
  31 frames in which the backend loses it remove it; the next frame finds no live track
  and bootstraps again from its two detections, so the number of live tracks goes from 0
  to 2 with the new ids 1 and 2, and no \<open>reset\<close> was called.
\<close>

theorem update_rebootstraps_after_expiry:
  "map_sum id live_ids
     (update_frames scripted_backend ObjectTracker_init [(True, [player_detection])]) = Inr [0]
   \<and> map_sum id live_ids
     (update_frames scripted_backend ObjectTracker_init
        ((True, [player_detection]) # replicate 31 (False, []))) = Inr []
   \<and> map_sum id live_ids
     (update_frames scripted_backend ObjectTracker_init
        ((True, [player_detection]) # replicate 31 (False, [])
          @ [(True, [player_detection, player_detection])])) = Inr [1, 2]"
  by code_simp

section \<open>Properties of detect_ball_transfer\<close>









section \<open>Properties of calculate_velocity\<close>

lemma find_app:
  "find P (xs @ ys) = (case find P xs of None \<Rightarrow> find P ys | Some x \<Rightarrow> Some x)"
  by (induction xs) auto

lemma prev_objects_map_fold:
  "fold (\<lambda>obj m. m(obj_id obj \<mapsto> obj)) prev m0 k =
     (case find (\<lambda>p. obj_id p = k) (rev prev) of None \<Rightarrow> m0 k | Some p \<Rightarrow> Some p)"
proof (induction prev arbitrary: m0)
  case Nil
  then show ?case by simp
next
  case (Cons a prev)
  have "fold (\<lambda>obj m. m(obj_id obj \<mapsto> obj)) (a # prev) m0 k =
          fold (\<lambda>obj m. m(obj_id obj \<mapsto> obj)) prev (m0(obj_id a \<mapsto> a)) k"
    by simp
  also have "\<dots> = (case find (\<lambda>p. obj_id p = k) (rev prev) of
             None \<Rightarrow> (m0(obj_id a \<mapsto> a)) k | Some p \<Rightarrow> Some p)"
    by (rule Cons.IH)
  also have "\<dots> = (case find (\<lambda>p. obj_id p = k) (rev (a # prev)) of
                       None \<Rightarrow> m0 k | Some p \<Rightarrow> Some p)"
    by (simp add: find_app split: option.splits)
  finally show ?case .
qed

lemma prev_objects_map_find:
  "prev_objects_map prev k = find (\<lambda>p. obj_id p = k) (rev prev)"
  by (simp add: prev_objects_map_def prev_objects_map_fold split: option.splits)

lemma find_None_ids: "find (\<lambda>p. obj_id p = k) (rev prev) = None \<longleftrightarrow> k \<notin> obj_id ` set prev"
  by (auto simp: find_None_iff)

text \<open>
  What \<open>calculate_velocity\<close> does to the object at each position of any list: with its
  id among the previous objects it gets the velocity \<open>center - previous center\<close>, from the
  last previous object of that id, and nothing else of it changes; with its id absent it
  is returned as it came.
\<close>

lemma calculate_velocity_nth:
  assumes "i < length tracked_objects"
  shows "length (calculate_velocity tracked_objects previous_objects) = length tracked_objects
       \<and> (obj_id (tracked_objects ! i) \<in> obj_id ` set previous_objects \<longrightarrow>
            (\<exists>p. find (\<lambda>p. obj_id p = obj_id (tracked_objects ! i)) (rev previous_objects) = Some p \<and>
                 calculate_velocity tracked_objects previous_objects ! i =
                   (tracked_objects ! i)
                     \<lparr> velocity := Some (fst (center (tracked_objects ! i)) - fst (center p),
                                         snd (center (tracked_objects ! i)) - snd (center p)) \<rparr>))
       \<and> (obj_id (tracked_objects ! i) \<notin> obj_id ` set previous_objects \<longrightarrow>
            calculate_velocity tracked_objects previous_objects ! i = tracked_objects ! i)"
proof (intro conjI impI)
  show "length (calculate_velocity tracked_objects previous_objects) = length tracked_objects"
    by (simp add: calculate_velocity_def)
next
  assume "obj_id (tracked_objects ! i) \<in> obj_id ` set previous_objects"
  then obtain p where
    p: "find (\<lambda>p. obj_id p = obj_id (tracked_objects ! i)) (rev previous_objects) = Some p"
    using find_None_ids[of "obj_id (tracked_objects ! i)" previous_objects] by fastforce
  then show "\<exists>p. find (\<lambda>p. obj_id p = obj_id (tracked_objects ! i)) (rev previous_objects) = Some p \<and>
                 calculate_velocity tracked_objects previous_objects ! i =
                   (tracked_objects ! i)
                     \<lparr> velocity := Some (fst (center (tracked_objects ! i)) - fst (center p),
                                         snd (center (tracked_objects ! i)) - snd (center p)) \<rparr>"
    using assms by (simp add: calculate_velocity_def set_velocity_def prev_objects_map_find Let_def)
next
  assume "obj_id (tracked_objects ! i) \<notin> obj_id ` set previous_objects"
  then have "find (\<lambda>p. obj_id p = obj_id (tracked_objects ! i)) (rev previous_objects) = None"
    using find_None_ids[of "obj_id (tracked_objects ! i)" previous_objects] by simp
  then show "calculate_velocity tracked_objects previous_objects ! i = tracked_objects ! i"
    using assms by (simp add: calculate_velocity_def set_velocity_def prev_objects_map_find)
qed


text \<open>
  Claim C8.  The tracked objects of a frame are the list \<open>update\<close> returns.  After
  \<open>calculate_velocity\<close> on that list, there is one object per track; a track whose id
  occurs among the previous objects has the velocity \<open>center - previous center\<close>,
  component by component, the previous object being the last one of that id in the list;
  a track whose id does not occur there has velocity \<open>None\<close>.
\<close>

theorem calculate_velocity_of_update_output:
  assumes "update be s frame detections = Inr (s', tracked_objects)"
    and "i < length tracked_objects"
  shows "length (calculate_velocity tracked_objects previous_objects) = length tracked_objects
       \<and> (obj_id (tracked_objects ! i) \<in> obj_id ` set previous_objects \<longrightarrow>
            (\<exists>p. find (\<lambda>p. obj_id p = obj_id (tracked_objects ! i)) (rev previous_objects) = Some p \<and>
                 velocity (calculate_velocity tracked_objects previous_objects ! i) =
                   Some (fst (center (tracked_objects ! i)) - fst (center p),
                         snd (center (tracked_objects ! i)) - snd (center p))))
       \<and> (obj_id (tracked_objects ! i) \<notin> obj_id ` set previous_objects \<longrightarrow>
            velocity (calculate_velocity tracked_objects previous_objects ! i) = None)"
proof -
  from update_objects_without_velocity[OF assms(1)] assms(2)
  have v: "velocity (tracked_objects ! i) = None" by simp
  note n = calculate_velocity_nth[OF assms(2), of previous_objects]
  show ?thesis
  proof (intro conjI impI)
    show "length (calculate_velocity tracked_objects previous_objects) = length tracked_objects"
      using n by simp
  next
    assume "obj_id (tracked_objects ! i) \<in> obj_id ` set previous_objects"
    with n obtain p where
      p: "find (\<lambda>p. obj_id p = obj_id (tracked_objects ! i)) (rev previous_objects) = Some p"
      and e: "calculate_velocity tracked_objects previous_objects ! i =
                (tracked_objects ! i)
                  \<lparr> velocity := Some (fst (center (tracked_objects ! i)) - fst (center p),
                                      snd (center (tracked_objects ! i)) - snd (center p)) \<rparr>"
      by blast
    from e have "velocity (calculate_velocity tracked_objects previous_objects ! i) =
                   Some (fst (center (tracked_objects ! i)) - fst (center p),
                         snd (center (tracked_objects ! i)) - snd (center p))"
      by simp
    with p show "\<exists>p. find (\<lambda>p. obj_id p = obj_id (tracked_objects ! i)) (rev previous_objects) = Some p \<and>
                 velocity (calculate_velocity tracked_objects previous_objects ! i) =
                   Some (fst (center (tracked_objects ! i)) - fst (center p),
                         snd (center (tracked_objects ! i)) - snd (center p))"
      by blast
  next
    assume "obj_id (tracked_objects ! i) \<notin> obj_id ` set previous_objects"
    with n have "calculate_velocity tracked_objects previous_objects ! i = tracked_objects ! i"
      by simp
    with v show "velocity (calculate_velocity tracked_objects previous_objects ! i) = None"
      by simp
  qed
qed

theorem calculate_velocity_of_update_output_witness:
  "update scripted_backend boundary_tracker True [] = Inr (tracked_scene, tracked_pair)
   \<and> map velocity (calculate_velocity tracked_pair [example_previous\<lparr>obj_id := 0\<rparr>]) =
       [Some (2, 3), None]"
proof -
  have u: "update scripted_backend boundary_tracker True [] = Inr (tracked_scene, tracked_pair)"
    by (simp add: run_simps tracked_scene_def tracked_pair_def)
  have l: "0 < length tracked_pair" "1 < length tracked_pair"
    by (simp_all add: tracked_pair_def)
  note t0 = calculate_velocity_of_update_output[OF u l(1), of "[example_previous\<lparr>obj_id := 0\<rparr>]"]
  note t1 = calculate_velocity_of_update_output[OF u l(2), of "[example_previous\<lparr>obj_id := 0\<rparr>]"]
  have "map velocity (calculate_velocity tracked_pair [example_previous\<lparr>obj_id := 0\<rparr>]) =
          [Some (2, 3), None]"
    using t0 t1
    by (simp add: calculate_velocity_def set_velocity_def prev_objects_map_def tracked_pair_def
        example_previous_def)
  with u show ?thesis by simp
qed

text \<open>
  An object that already carries a velocity, which none that \<open>update\<close> returns does, keeps
  it when its id is absent from the previous objects: \<open>calculate_velocity\<close> assigns
  velocities and never clears one.
\<close>

lemma calculate_velocity_keeps_entry_velocity:
  "map velocity (calculate_velocity (calculate_velocity [example_current] [example_previous]) []) = [Some (2, 3)]"
  by (simp add: calculate_velocity_def set_velocity_def prev_objects_map_def example_current_def example_previous_def)

section \<open>Properties of BallTracker.predict_ball_position\<close>

text \<open>
  Claim C9.  With fewer than 3 samples in the history there is no prediction.  With at
  least 3, where \<open>p1\<close>, \<open>p2\<close>, \<open>p3\<close> are the positions of the last three samples in order,
  the prediction is \<open>p3\<close> plus \<open>frames_ahead\<close> times the average of the two velocities
  \<open>p2 - p1\<close> and \<open>p3 - p2\<close>, component by component.
\<close>

theorem predict_ball_position_linear:
  "(length ball_history < 3 \<longrightarrow> predict_ball_position ball_history frames_ahead = None)
   \<and> (3 \<le> length ball_history \<longrightarrow>
        (let n = length ball_history;
             p1 = bs_position (ball_history ! (n - 3));
             p2 = bs_position (ball_history ! (n - 2));
             p3 = bs_position (ball_history ! (n - 1))
         in predict_ball_position ball_history frames_ahead =
              Some (fst p3 + ((fst p2 - fst p1) + (fst p3 - fst p2)) / 2 * of_int frames_ahead,
                    snd p3 + ((snd p2 - snd p1) + (snd p3 - snd p2)) / 2 * of_int frames_ahead)))"
proof (intro conjI impI)
  assume "length ball_history < 3"
  then show "predict_ball_position ball_history frames_ahead = None"
    by (simp add: predict_ball_position_def)
next
  assume n3: "3 \<le> length ball_history"
  define n where "n = length ball_history"
  define recent where "recent = drop (n - 3) ball_history"
  have len: "length recent = 3" using n3 by (simp add: recent_def n_def)
  have upt: "[1..<length recent] = [1, 2]" by (simp add: len upt_rec)
  have r0: "recent ! 0 = ball_history ! (n - 3)"
    and r1: "recent ! 1 = ball_history ! (n - 2)"
    and r2: "recent ! 2 = ball_history ! (n - 1)"
  proof -
    have i: "n - 3 + 1 = n - 2" "n - 3 + 2 = n - 1" "n - 3 \<le> length ball_history"
      using n3 by (simp_all add: n_def)
    show "recent ! 0 = ball_history ! (n - 3)"
      unfolding recent_def using i(3) by simp
    show "recent ! 1 = ball_history ! (n - 2)"
      unfolding recent_def using nth_drop[OF i(3), of 1] i(1) by simp
    show "recent ! 2 = ball_history ! (n - 1)"
      unfolding recent_def using nth_drop[OF i(3), of 2] i(2) by simp
  qed
  have "ball_history \<noteq> []" using n3 by auto
  then have l: "last ball_history = ball_history ! (n - 1)"
    by (simp add: last_conv_nth n_def)
  have nl: "\<not> length ball_history < 3" using n3 by simp
  show "let n = length ball_history;
             p1 = bs_position (ball_history ! (n - 3));
             p2 = bs_position (ball_history ! (n - 2));
             p3 = bs_position (ball_history ! (n - 1))
         in predict_ball_position ball_history frames_ahead =
              Some (fst p3 + ((fst p2 - fst p1) + (fst p3 - fst p2)) / 2 * of_int frames_ahead,
                    snd p3 + ((snd p2 - snd p1) + (snd p3 - snd p2)) / 2 * of_int frames_ahead)"
    unfolding predict_ball_position_def Let_def n_def[symmetric] recent_def[symmetric] upt
    using nl r0 r1 r2 l by (simp add: n_def)
qed

theorem predict_ball_position_linear_witness:
  "predict_ball_position sample_history 5 = Some (38, 31)
   \<and> predict_ball_position (take 2 sample_history) 5 = None"
  using predict_ball_position_linear[of sample_history 5]
        predict_ball_position_linear[of "take 2 sample_history" 5]
  by (simp add: predict_ball_position_def sample_history_def upt_rec)

end
